theory Spec2Isabelle
  imports Main
begin

section \<open>The script \<open>packages/os/generate-eni-max-pods.py\<close>\<close>

text \<open>
  The script fetches one documentation page, parses it with BeautifulSoup, picks a table,
  walks its rows and prints one line per row it can parse. It is module-level code with no
  functions of its own, so the model names each stretch of it after what it assigns:
  the table loop (lines 13-15), the body of the row loop (lines 20-32), the row loop
  (line 19) and the whole script.

  What the script calls in the Python language and in its two libraries is modelled
  next, as far as the script uses it.
\<close>

subsection \<open>Python strings and integers\<close>

text \<open>
  A Python \<open>str\<close> is a sequence of code points. A \<^typ>\<open>char\<close> stands for the code point
  of the same number, so a \<^typ>\<open>string\<close> is a Python string all of whose code points are
  below 256. Python integers are unbounded: \<^typ>\<open>int\<close>.

  \<open>str.strip()\<close> removes the leading and the trailing whitespace. Below 256 the code
  points Python counts as whitespace are 9-13, 28-32, 133 and 160.
\<close>

definition isspace :: "char \<Rightarrow> bool" where
  "isspace c = (of_char c \<in> {9, 10, 11, 12, 13, 28, 29, 30, 31, 32, 133, 160 :: nat})"

text \<open>Dropping from both ends of a text the characters of one class.\<close>

definition trim :: "(char \<Rightarrow> bool) \<Rightarrow> string \<Rightarrow> string" where
  "trim P s = rev (dropWhile P (rev (dropWhile P s)))"

definition strip :: "string \<Rightarrow> string" where
  "strip s = trim isspace s"

text \<open>
  \<open>int(s)\<close> on a string: whitespace around the number is skipped (here the separators
  28-31 do not count), then comes an optional sign, then decimal digits, where single
  underscores may stand between two digits. Anything else raises \<open>ValueError\<close>, which is
  the result \<open>None\<close>. The optional limit that newer interpreters put on the number of
  digits is not modelled.
\<close>

definition int_space :: "char \<Rightarrow> bool" where
  "int_space c = (of_char c \<in> {9, 10, 11, 12, 13, 32, 133, 160 :: nat})"

definition isdigit :: "char \<Rightarrow> bool" where
  "isdigit c = (48 \<le> (of_char c :: nat) \<and> (of_char c :: nat) \<le> 57)"

definition digit_value :: "char \<Rightarrow> int" where
  "digit_value c = int (of_char c) - 48"

text \<open>
  The digit scan; \<open>prev\<close> says that the character before was a digit, which an underscore
  and the end of the text both need.
\<close>

fun scan_digits :: "bool \<Rightarrow> int \<Rightarrow> string \<Rightarrow> int option" where
  "scan_digits prev acc [] = (if prev then Some acc else None)"
| "scan_digits prev acc (c # cs) =
     (if isdigit c then scan_digits True (acc * 10 + digit_value c) cs
      else if c = CHR ''_'' \<and> prev then scan_digits False acc cs
      else None)"

definition py_int :: "string \<Rightarrow> int option" where
  "py_int s =
     (case trim int_space s of
        [] \<Rightarrow> None
      | c # cs \<Rightarrow>
          if c = CHR ''-'' then map_option uminus (scan_digits False 0 cs)
          else if c = CHR ''+'' then scan_digits False 0 cs
          else scan_digits False 0 (c # cs))"

text \<open>\<open>str(n)\<close>, as the f-string of line 32 formats an integer: decimal, \<open>-\<close> when negative.\<close>

definition digit_char :: "nat \<Rightarrow> char" where
  "digit_char d = ''0123456789'' ! d"

fun str_nat :: "nat \<Rightarrow> string" where
  "str_nat n = (if n < 10 then [digit_char n] else str_nat (n div 10) @ [digit_char (n mod 10)])"

declare str_nat.simps [simp del]

definition str_int :: "int \<Rightarrow> string" where
  "str_int i = (if i < 0 then CHR ''-'' # str_nat (nat (- i)) else str_nat (nat i))"

subsection \<open>The capacity formula (line 31)\<close>

definition max_pods :: "int \<Rightarrow> int \<Rightarrow> int" where
  "max_pods instance_enis ips_per_eni = (instance_enis - 1) * (ips_per_eni - 1) + 2"

subsection \<open>The parsed document\<close>

text \<open>
  BeautifulSoup turns the page into a tree. An element is a \<open>Tag\<close> with its name and its
  list of children (\<open>contents\<close>); a leaf is a piece of text (\<open>NavigableString\<close>) or a
  comment. \<open>Comment\<close> stands for every kind of leaf that \<open>.text\<close> leaves out. The document
  itself is a tag too. Attributes play no part in the script and are left out.
\<close>

datatype node =
    Tag string "node list"
  | NavigableString string
  | Comment string

text \<open>All nodes below a node, in document order, as \<open>Tag.descendants\<close> yields them.\<close>

fun descendants :: "node \<Rightarrow> node list" where
  "descendants (Tag nm cs) = concat (map (\<lambda>c. c # descendants c) cs)"
| "descendants (NavigableString s) = []"
| "descendants (Comment s) = []"

fun is_tag_named :: "string \<Rightarrow> node \<Rightarrow> bool" where
  "is_tag_named nm (Tag n cs) = (n = nm)"
| "is_tag_named nm (NavigableString s) = False"
| "is_tag_named nm (Comment s) = False"

text \<open>\<open>tag.find_all(name)\<close> (and its old spelling \<open>findAll\<close>): the elements of that name
  below \<open>tag\<close>, at any depth, in document order.\<close>

definition find_all :: "string \<Rightarrow> node \<Rightarrow> node list" where
  "find_all nm t = filter (is_tag_named nm) (descendants t)"

text \<open>\<open>len(tag)\<close> is the length of \<open>tag.contents\<close>: the children of the tag, elements, texts
  and comments alike, and none of their own children.\<close>

fun len :: "node \<Rightarrow> nat" where
  "len (Tag nm cs) = length cs"
| "len (NavigableString s) = length s"
| "len (Comment s) = length s"

text \<open>\<open>tag.text\<close> joins the texts below the tag, in document order.\<close>

fun string_of :: "node \<Rightarrow> string" where
  "string_of (NavigableString s) = s"
| "string_of (Tag nm cs) = []"
| "string_of (Comment s) = []"

definition get_text :: "node \<Rightarrow> string" where
  "get_text t = concat (map string_of (descendants t))"

subsection \<open>Exceptions and what a run leaves behind\<close>

text \<open>
  The exceptions that can end the script. \<open>ValueError\<close> is not among them: the only place
  that raises it is inside the \<open>try\<close> of lines 24-29, which catches it.
\<close>

datatype exception = RequestException | NameError | IndexError

text \<open>A run leaves the lines it printed and, when it died, the exception that ended it.\<close>

record outcome =
  stdout :: "string list"
  raised :: "exception option"

text \<open>The interpreter exits with 1 after an uncaught exception and with 0 otherwise.\<close>

definition exit_code :: "outcome \<Rightarrow> nat" where
  "exit_code r = (case raised r of None \<Rightarrow> 0 | Some e \<Rightarrow> 1)"

subsection \<open>The table loop (lines 13-15)\<close>

text \<open>
  The variable \<open>t\<close> has no value before the loop: \<open>None\<close> is "not bound". Each table longer
  than 50 is assigned to it, so a later one overwrites an earlier one.
\<close>

fun select_table :: "node option \<Rightarrow> node list \<Rightarrow> node option" where
  "select_table t [] = t"
| "select_table t (table # tables) =
     select_table (if len table > 50 then Some table else t) tables"

subsection \<open>One row (lines 20-32)\<close>

text \<open>
  The body of the row loop, for one row: \<open>Inl\<close> an exception that leaves the loop,
  \<open>Inr None\<close> a \<open>continue\<close>, \<open>Inr (Some line)\<close> the line printed. The three assignments
  of the \<open>try\<close> run in order, so \<open>cells[2]\<close> is only read once \<open>cells[1]\<close> has converted.
  Reading a cell that is not there raises \<open>IndexError\<close>, which \<open>except ValueError\<close> does
  not catch.
\<close>

definition process_row :: "node \<Rightarrow> exception + string option" where
  "process_row row =
     (let cells = find_all ''td'' row in
      if length cells < 1 then Inr None
      else
        let instance_type = strip (get_text (cells ! 0)) in
        if length cells \<le> 1 then Inl IndexError
        else case py_int (strip (get_text (cells ! 1))) of
          None \<Rightarrow> Inr None
        | Some instance_enis \<Rightarrow>
            if length cells \<le> 2 then Inl IndexError
            else (case py_int (strip (get_text (cells ! 2))) of
              None \<Rightarrow> Inr None
            | Some ips_per_eni \<Rightarrow>
                Inr (Some (instance_type @ '' '' @ str_int (max_pods instance_enis ips_per_eni)))))"

subsection \<open>The row loop (line 19)\<close>

fun rows_loop :: "node list \<Rightarrow> string list \<Rightarrow> outcome" where
  "rows_loop [] out = \<lparr>stdout = out, raised = None\<rparr>"
| "rows_loop (row # rows) out =
     (case process_row row of
        Inl e \<Rightarrow> \<lparr>stdout = out, raised = Some e\<rparr>
      | Inr None \<Rightarrow> rows_loop rows out
      | Inr (Some line) \<Rightarrow> rows_loop rows (out @ [line]))"

subsection \<open>The whole script\<close>

text \<open>
  \<open>requests.get\<close> either raises (no connection, a timeout, too many redirects) or returns
  a response, whatever its status code; the script reads only \<open>response.text\<close>. The HTML
  parser is a parameter, \<open>BeautifulSoup\<close>, from the text of the page to its tree.
\<close>

datatype fetched = Raises | Response nat string

definition generate_eni_max_pods :: "(string \<Rightarrow> node) \<Rightarrow> fetched \<Rightarrow> outcome" where
  "generate_eni_max_pods BeautifulSoup got =
     (case got of
        Raises \<Rightarrow> \<lparr>stdout = [], raised = Some RequestException\<rparr>
      | Response status_code text' \<Rightarrow>
          let parsed_html = BeautifulSoup text';
              tables = find_all ''table'' parsed_html
          in (case select_table None tables of
                None \<Rightarrow> \<lparr>stdout = [], raised = Some NameError\<rparr>
              | Some t \<Rightarrow> rows_loop (find_all ''tr'' t) []))"

subsection \<open>Notions the properties are stated with\<close>

text \<open>
  A row parses successfully when it has the three cells and the second and the third
  convert: then it yields the instance type from cell 0 and the integers from cells 1
  and 2. This follows the words of the description, not the control flow of the script;
  the two are compared below.
\<close>

definition parsed_row :: "node \<Rightarrow> (string \<times> int \<times> int) option" where
  "parsed_row row =
     (let cells = find_all ''td'' row in
      if length cells < 3 then None
      else case py_int (strip (get_text (cells ! 1))) of
        None \<Rightarrow> None
      | Some e \<Rightarrow>
          (case py_int (strip (get_text (cells ! 2))) of
             None \<Rightarrow> None
           | Some i \<Rightarrow> Some (strip (get_text (cells ! 0)), e, i)))"

text \<open>The line for a parsed row: the instance type, a space, the capacity.\<close>

fun output_line :: "string \<times> int \<times> int \<Rightarrow> string" where
  "output_line (instance_type, e, i) = instance_type @ '' '' @ str_int (max_pods e i)"

text \<open>
  The other reading of "longer than 50": the number of elements anywhere below a table,
  and the table that reading selects, the last one with more than 50 of them.
\<close>

fun is_tag :: "node \<Rightarrow> bool" where
  "is_tag (Tag nm cs) = True"
| "is_tag (NavigableString s) = False"
| "is_tag (Comment s) = False"

definition descendant_elements :: "node \<Rightarrow> nat" where
  "descendant_elements t = length (filter is_tag (descendants t))"

definition exceeds_by_descendants :: "node \<Rightarrow> bool" where
  "exceeds_by_descendants t = (50 < descendant_elements t)"

definition last_exceeding_by_descendants :: "node list \<Rightarrow> node option" where
  "last_exceeding_by_descendants tables =
     (if filter exceeds_by_descendants tables = [] then None
      else Some (last (filter exceeds_by_descendants tables)))"

subsection \<open>Example documents\<close>

text \<open>A data cell holding one text, a header cell, and a row of data cells.\<close>

definition td :: "string \<Rightarrow> node" where
  "td s = Tag ''td'' [NavigableString s]"

definition th :: "string \<Rightarrow> node" where
  "th s = Tag ''th'' [NavigableString s]"

definition tr :: "string list \<Rightarrow> node" where
  "tr ss = Tag ''tr'' (map td ss)"

text \<open>
  A page whose one table has 51 rows, all \<open>t3.micro | 2 | 4\<close>, and its HTML text. The
  parser of the examples knows this text; any other text it keeps as one piece of text.
\<close>

definition sample_html :: string where
  "sample_html =
     ''<table>'' @ concat (replicate 51 ''<tr><td>t3.micro</td><td>2</td><td>4</td></tr>'')
       @ ''</table>''"

definition sample_page :: node where
  "sample_page =
     Tag ''[document]'' [Tag ''table'' (replicate 51 (tr [''t3.micro'', ''2'', ''4'']))]"

definition sample_parser :: "string \<Rightarrow> node" where
  "sample_parser text' =
     (if text' = sample_html then sample_page else Tag ''[document]'' [NavigableString text'])"

text \<open>
  Two tables: the first has 51 rows as its children; the second has one child, a \<open>tbody\<close>,
  and the 51 rows are inside that.
\<close>

definition wide_table :: node where
  "wide_table = Tag ''table'' (replicate 51 (tr [''t3.micro'', ''2'', ''4'']))"

definition deep_table :: node where
  "deep_table = Tag ''table'' [Tag ''tbody'' (replicate 51 (tr [''m5.large'', ''3'', ''10'']))]"

definition two_tables_page :: node where
  "two_tables_page = Tag ''[document]'' [wide_table, deep_table]"

text \<open>
  A page whose only table has a header row and two rows of data, its HTML text, and a
  parser that knows this text.
\<close>

definition header_row :: node where
  "header_row =
     Tag ''tr'' [th ''Instance type'', th ''Maximum network interfaces'',
                 th ''Private IPv4 addresses per interface'']"

definition small_table :: node where
  "small_table =
     Tag ''table'' [header_row, tr [''t3.micro'', ''2'', ''4''], tr [''m5.large'', ''3'', ''10'']]"

definition small_page :: node where
  "small_page = Tag ''[document]'' [small_table]"

definition small_html :: string where
  "small_html =
     ''<table><tr><th>Instance type</th><th>Maximum network interfaces</th>''
     @ ''<th>Private IPv4 addresses per interface</th></tr>''
     @ ''<tr><td>t3.micro</td><td>2</td><td>4</td></tr>''
     @ ''<tr><td>m5.large</td><td>3</td><td>10</td></tr></table>''"

definition small_parser :: "string \<Rightarrow> node" where
  "small_parser text' =
     (if text' = small_html then small_page else Tag ''[document]'' [NavigableString text'])"

text \<open>
  A page whose one table has one row and, after it, 50 comments: 51 children, but only
  four elements, the row and its three cells. Its HTML text, and a parser that knows this
  text.
\<close>

definition comment_table :: node where
  "comment_table =
     Tag ''table'' (tr [''t3.micro'', ''2'', ''4''] # replicate 50 (Comment ''x''))"

definition comment_page :: node where
  "comment_page = Tag ''[document]'' [comment_table]"

definition comment_html :: string where
  "comment_html =
     ''<table><tr><td>t3.micro</td><td>2</td><td>4</td></tr>''
     @ concat (replicate 50 ''<!--x-->'') @ ''</table>''"

definition comment_parser :: "string \<Rightarrow> node" where
  "comment_parser text' =
     (if text' = comment_html then comment_page else Tag ''[document]'' [NavigableString text'])"

section \<open>Auxiliary facts\<close>

subsection \<open>Trimming\<close>

lemma dropWhile_all: "list_all P xs \<Longrightarrow> dropWhile P (xs @ ys) = dropWhile P ys"
  by (induction xs) auto

lemma dropWhile_nil: "list_all P xs \<Longrightarrow> dropWhile P xs = []"
  by (induction xs) auto

lemma trim_append:
  assumes "list_all P a" and "list_all P b"
  shows "trim P (a @ s @ b) = trim P s"
proof -
  have rb: "list_all P (rev b)" using assms(2) by (simp add: list_all_iff)
  have 1: "dropWhile P (a @ s @ b) = dropWhile P (s @ b)"
    using assms(1) by (rule dropWhile_all)
  show ?thesis
  proof (cases "list_all P s")
    case True
    then have "list_all P (s @ b)" using assms(2) by simp
    then have e1: "dropWhile P (s @ b) = []" by (rule dropWhile_nil)
    have e2: "dropWhile P s = []" using True by (rule dropWhile_nil)
    show ?thesis unfolding trim_def 1 e1 e2 by (rule refl)
  next
    case False
    then have "dropWhile P (s @ b) = dropWhile P s @ b"
      by (auto simp: dropWhile_append list_all_iff)
    then have "rev (dropWhile P (s @ b)) = rev b @ rev (dropWhile P s)"
      by simp
    then have "dropWhile P (rev (dropWhile P (s @ b))) = dropWhile P (rev (dropWhile P s))"
      using rb by (simp add: dropWhile_all)
    then show ?thesis using 1 by (simp add: trim_def)
  qed
qed

lemma trim_decomp:
  "s = takeWhile P s @ trim P s @ rev (takeWhile P (rev (dropWhile P s)))"
proof -
  let ?d = "dropWhile P s"
  have "rev (takeWhile P (rev ?d) @ dropWhile P (rev ?d)) = rev (rev ?d)"
    by (simp only: takeWhile_dropWhile_id)
  then have "rev (dropWhile P (rev ?d)) @ rev (takeWhile P (rev ?d)) = ?d"
    by (simp only: rev_append rev_rev_ident)
  then have "trim P s @ rev (takeWhile P (rev ?d)) = ?d"
    by (simp only: trim_def)
  moreover have "s = takeWhile P s @ ?d" by simp
  ultimately show ?thesis by (simp only:)
qed

lemma list_all_takeWhile: "list_all P (takeWhile P s)"
  by (induction s) auto

lemma trim_surrounded:
  "\<exists>a b. s = a @ trim P s @ b \<and> list_all P a \<and> list_all P b"
proof -
  have "list_all P (rev (takeWhile P (rev (dropWhile P s))))"
    using list_all_takeWhile [of P "rev (dropWhile P s)"] by (simp add: list_all_iff)
  then show ?thesis
    using trim_decomp [of s P] list_all_takeWhile [of P s] by blast
qed

lemma trim_last: "trim P s \<noteq> [] \<Longrightarrow> \<not> P (last (trim P s))"
  by (simp add: trim_def last_rev hd_dropWhile)

lemma trim_hd: "trim P s \<noteq> [] \<Longrightarrow> \<not> P (hd (trim P s))"
proof -
  assume ne: "trim P s \<noteq> []"
  let ?d = "dropWhile P s"
  have "s = takeWhile P s @ (trim P s @ rev (takeWhile P (rev ?d)))"
    by (rule trim_decomp)
  moreover have "s = takeWhile P s @ ?d" by simp
  ultimately have d: "?d = trim P s @ rev (takeWhile P (rev ?d))"
    by (metis same_append_eq)
  have "?d \<noteq> []"
  proof
    assume "?d = []"
    then have "trim P s = rev (dropWhile P (rev []))" by (simp only: trim_def)
    then have "trim P s = []" by simp
    then show False using ne by simp
  qed
  then have "\<not> P (hd ?d)" by (rule hd_dropWhile)
  moreover have "hd ?d = hd (trim P s)" using d ne by (metis hd_append2)
  ultimately show ?thesis by simp
qed

lemma trim_id: "s \<noteq> [] \<Longrightarrow> \<not> P (hd s) \<Longrightarrow> \<not> P (last s) \<Longrightarrow> trim P s = s"
proof -
  assume ne: "s \<noteq> []" and h: "\<not> P (hd s)" and l: "\<not> P (last s)"
  have 1: "dropWhile P s = s" using ne h by (cases s) auto
  have "rev s \<noteq> []" using ne by simp
  moreover have "\<not> P (hd (rev s))" using l ne by (simp add: hd_rev)
  ultimately have 2: "dropWhile P (rev s) = rev s" by (cases "rev s") auto
  show ?thesis unfolding trim_def 1 2 by simp
qed

subsection \<open>Integer conversion\<close>

lemma int_space_isspace: "int_space c \<Longrightarrow> isspace c"
  by (auto simp: int_space_def isspace_def)

lemma isdigit_not_space: "isdigit c \<Longrightarrow> \<not> isspace c"
  by (auto simp: isdigit_def isspace_def)

lemma scan_digits_last:
  "scan_digits prev acc cs = Some e \<Longrightarrow> cs \<noteq> [] \<Longrightarrow> isdigit (last cs)"
proof (induction cs arbitrary: prev acc)
  case Nil
  then show ?case by simp
next
  case (Cons c cs)
  show ?case
  proof (cases "cs = []")
    case True
    then show ?thesis using Cons.prems by (auto split: if_splits)
  next
    case False
    then show ?thesis using Cons by (auto split: if_splits)
  qed
qed

lemma scan_digits_hd: "scan_digits False acc cs = Some e \<Longrightarrow> cs \<noteq> [] \<and> isdigit (hd cs)"
  by (cases cs) (auto split: if_splits)

lemma py_int_ends:
  assumes "py_int s = Some e"
  shows "trim int_space s \<noteq> [] \<and> \<not> isspace (hd (trim int_space s))
         \<and> \<not> isspace (last (trim int_space s))"
proof (cases "trim int_space s")
  case Nil
  then show ?thesis using assms by (simp add: py_int_def)
next
  case (Cons c cs)
  have sign: "\<not> isspace CHR ''-''" "\<not> isspace CHR ''+''" by (simp_all add: isspace_def)
  show ?thesis
  proof (cases "c = CHR ''-'' \<or> c = CHR ''+''")
    case True
    then obtain v where v: "scan_digits False 0 cs = Some v"
      using assms Cons by (auto simp: py_int_def split: if_splits)
    then have "cs \<noteq> []" "isdigit (last cs)"
      using scan_digits_hd [OF v] scan_digits_last [OF v] by auto
    then show ?thesis using Cons True sign by (auto simp: isdigit_not_space)
  next
    case False
    then have v: "scan_digits False 0 (c # cs) = Some e"
      using assms Cons by (auto simp: py_int_def split: if_splits)
    then have "isdigit c" "isdigit (last (c # cs))"
      using scan_digits_hd [OF v] scan_digits_last [OF v] by auto
    then show ?thesis using Cons by (auto simp: isdigit_not_space simp del: last.simps)
  qed
qed

lemma py_int_strip:
  assumes "py_int s = Some e"
  shows "py_int (strip s) = Some e"
proof -
  let ?t = "trim int_space s"
  have ends: "?t \<noteq> []" "\<not> isspace (hd ?t)" "\<not> isspace (last ?t)"
    using py_int_ends [OF assms] by auto
  obtain a b where s: "s = a @ ?t @ b" and a: "list_all int_space a" and b: "list_all int_space b"
    using trim_surrounded [of s int_space] by blast
  have "list_all isspace a" "list_all isspace b"
    using a b by (auto simp: list_all_iff int_space_isspace)
  then have "trim isspace (a @ ?t @ b) = trim isspace ?t" by (rule trim_append)
  then have "strip s = trim isspace ?t" using s by (simp add: strip_def)
  then have 1: "strip s = ?t" using ends by (simp add: trim_id)
  have "\<not> int_space (hd ?t)" "\<not> int_space (last ?t)"
    using ends int_space_isspace by blast+
  then have "trim int_space ?t = ?t" using ends(1) by (simp add: trim_id)
  then have "py_int ?t = py_int s" by (simp add: py_int_def)
  then show ?thesis using 1 assms by simp
qed

lemma py_int_surrounded:
  "list_all isspace a \<Longrightarrow> list_all isspace b \<Longrightarrow> py_int s = Some e
   \<Longrightarrow> py_int (strip (a @ s @ b)) = Some e"
  by (simp add: strip_def trim_append py_int_strip [unfolded strip_def])

lemmas eval_defs = process_row_def find_all_def get_text_def strip_def trim_def isspace_def
  py_int_def int_space_def isdigit_def digit_value_def max_pods_def str_int_def str_nat.simps
  digit_char_def td_def tr_def

subsection \<open>Rows, loops and the example pages\<close>

lemma process_row_parsed:
  "parsed_row row = Some p \<Longrightarrow> process_row row = Inr (Some (output_line p))"
  by (auto simp: process_row_def parsed_row_def Let_def split: if_splits option.splits)

lemma process_row_no_cells: "find_all ''td'' row = [] \<Longrightarrow> process_row row = Inr None"
  by (simp add: process_row_def)

lemma rows_loop_replicate:
  "process_row row = Inr (Some l)
   \<Longrightarrow> rows_loop (replicate n row) out = \<lparr>stdout = out @ replicate n l, raised = None\<rparr>"
  by (induction n arbitrary: out) (simp_all add: replicate_app_Cons_same)

lemma concat_replicate_single: "concat (replicate n [x]) = replicate n x"
  by (induction n) simp_all

lemma find_all_replicate:
  "find_all nm (Tag t (replicate n c)) =
     concat (replicate n (filter (is_tag_named nm) (c # descendants c)))"
  by (induction n) (simp_all add: find_all_def)

lemma select_table_filter:
  "select_table t tables =
     (if filter (\<lambda>table. 50 < len table) tables = [] then t
      else Some (last (filter (\<lambda>table. 50 < len table) tables)))"
  by (induction tables arbitrary: t) auto

lemma t3_micro_row: "process_row (tr [''t3.micro'', ''2'', ''4'']) = Inr (Some ''t3.micro 5'')"
  by (simp add: eval_defs)

lemma sample_run:
  "generate_eni_max_pods sample_parser (Response status_code sample_html) =
     \<lparr>stdout = replicate 51 ''t3.micro 5'', raised = None\<rparr>"
proof -
  let ?row = "tr [''t3.micro'', ''2'', ''4'']"
  let ?table = "Tag ''table'' (replicate 51 ?row)"
  have tables: "find_all ''table'' sample_page = [?table]"
    by (simp add: find_all_def sample_page_def tr_def td_def)
  have "filter (is_tag_named ''tr'') (?row # descendants ?row) = [?row]"
    by (simp add: tr_def td_def)
  then have rows: "find_all ''tr'' ?table = replicate 51 ?row"
    by (simp only: find_all_replicate concat_replicate_single)
  have "select_table None [?table] = Some ?table" by simp
  then show ?thesis
    using tables rows rows_loop_replicate [OF t3_micro_row, of 51 "[]"]
    by (simp add: generate_eni_max_pods_def sample_parser_def)
qed

lemma comment_run:
  "generate_eni_max_pods comment_parser (Response status_code comment_html) =
     \<lparr>stdout = [''t3.micro 5''], raised = None\<rparr>"
proof -
  let ?row = "tr [''t3.micro'', ''2'', ''4'']"
  have d: "descendants comment_table = ?row # descendants ?row @ replicate 50 (Comment ''x'')"
    by (induction "50::nat") (simp_all add: comment_table_def concat_replicate_single)
  have tables: "find_all ''table'' comment_page = [comment_table]"
    by (simp add: find_all_def comment_page_def d tr_def td_def) (simp add: comment_table_def)
  have rows: "find_all ''tr'' comment_table = [?row]"
    by (simp add: find_all_def d) (simp add: tr_def td_def)
  have "len comment_table = 51" by (simp add: comment_table_def)
  then have "select_table None [comment_table] = Some comment_table" by simp
  then show ?thesis
    using tables rows
    by (simp add: generate_eni_max_pods_def comment_parser_def t3_micro_row)
qed

lemma two_tables: "find_all ''table'' two_tables_page = [wide_table, deep_table]"
  by (simp add: find_all_def two_tables_page_def wide_table_def deep_table_def tr_def td_def)

section \<open>Properties\<close>

text \<open>
  C1. For all integers \<open>e \<ge> 1\<close> and \<open>i \<ge> 1\<close> the capacity computed from \<open>e\<close> interfaces and
  \<open>i\<close> addresses per interface is \<open>(e - 1) * (i - 1) + 2\<close>; for 4 and 30 it is 89.
\<close>

theorem max_pods_formula:
  "1 \<le> e \<Longrightarrow> 1 \<le> i \<Longrightarrow> max_pods e i = (e - 1) * (i - 1) + 2 \<and> max_pods 4 30 = 89"
  by (simp add: max_pods_def)

theorem max_pods_formula_witness:
  "(1::int) \<le> 4 \<and> (1::int) \<le> 30 \<and> max_pods 4 30 = (4 - 1) * (30 - 1) + 2 \<and> max_pods 4 30 = 89"
  using max_pods_formula [of 4 30] by simp

text \<open>
  C2. A row that parses successfully (instance type from cell 0, integers from cells 1
  and 2) does not always get its line. The row with the cells \<open>t3.micro\<close>, \<open>2\<close>, \<open>4\<close>
  parses, and as the only row of a table it gives exactly the line \<open>t3.micro 5\<close>. After
  a row with the two cells \<open>t3.micro\<close>, \<open>2\<close> it gives nothing: that row raises
  \<open>IndexError\<close> (C6), the run ends there, and the output is empty.
\<close>

theorem parsed_row_after_short_row_unprinted:
  "parsed_row (tr [''t3.micro'', ''2'', ''4'']) = Some (''t3.micro'', 2, 4)
   \<and> rows_loop [tr [''t3.micro'', ''2'', ''4'']] []
       = \<lparr>stdout = [''t3.micro 5''], raised = None\<rparr>
   \<and> rows_loop [tr [''t3.micro'', ''2''], tr [''t3.micro'', ''2'', ''4'']] []
       = \<lparr>stdout = [], raised = Some IndexError\<rparr>"
proof -
  have "parsed_row (tr [''t3.micro'', ''2'', ''4'']) = Some (''t3.micro'', 2, 4)"
    by (simp add: parsed_row_def eval_defs)
  moreover have "rows_loop [tr [''t3.micro'', ''2'', ''4'']] []
      = \<lparr>stdout = [''t3.micro 5''], raised = None\<rparr>"
    by (simp add: t3_micro_row)
  moreover have "process_row (tr [''t3.micro'', ''2'']) = Inl IndexError"
    by (simp add: eval_defs)
  ultimately show ?thesis by simp
qed

text \<open>
  C3. The table loop looks at every table of the document and leaves in \<open>t\<close> the last
  one that is longer than 50, where the length of a table is the number of its children
  (\<open>len(table)\<close>: child elements, texts and comments, not what is inside them); when
  several tables are that long, the last one is selected, not the first, and when none
  is, \<open>t\<close> stays unbound.
\<close>

theorem table_loop_selects_last_long_table:
  "select_table None tables =
     (if filter (\<lambda>table. 50 < len table) tables = [] then None
      else Some (last (filter (\<lambda>table. 50 < len table) tables)))"
  by (rule select_table_filter)

text \<open>
  With the count of all elements below a table in place of its length, C3 fails: of the
  two tables of \<open>two_tables_page\<close> both have more than 50 elements below them, so the last
  such table is the second; the loop selects the first, the only one with more than 50
  children.
\<close>

theorem descendant_count_counterexample:
  "select_table None (find_all ''table'' two_tables_page) = Some wide_table
   \<and> last_exceeding_by_descendants (find_all ''table'' two_tables_page) = Some deep_table
   \<and> wide_table \<noteq> deep_table"
proof -
  have 1: "len wide_table = 51" "len deep_table = 1"
    by (simp_all add: wide_table_def deep_table_def)
  have 2: "exceeds_by_descendants wide_table" "exceeds_by_descendants deep_table"
    by code_simp+
  have 3: "wide_table \<noteq> deep_table"
  proof
    assume "wide_table = deep_table"
    then have "len wide_table = len deep_table" by simp
    then show False using 1 by simp
  qed
  show ?thesis
    using 1 2 3 by (simp add: two_tables last_exceeding_by_descendants_def)
qed

text \<open>
  C4. When the fetch itself fails, that is when \<open>requests.get\<close> raises, the run ends with
  a non-zero exit code and prints no line. The status code of a response is never looked
  at: a response with any status is processed exactly as a response with status 200 and
  the same text.
\<close>

theorem fetch_failure_fatal_status_ignored:
  "generate_eni_max_pods BeautifulSoup Raises = \<lparr>stdout = [], raised = Some RequestException\<rparr>
   \<and> exit_code (generate_eni_max_pods BeautifulSoup Raises) \<noteq> 0
   \<and> generate_eni_max_pods BeautifulSoup (Response status_code text')
       = generate_eni_max_pods BeautifulSoup (Response 200 text')"
  by (simp add: generate_eni_max_pods_def exit_code_def)

text \<open>
  For a response with a non-success status C4 fails: a 404 response whose text is
  \<open>sample_html\<close> ends with exit code 0 and prints 51 lines.
\<close>

theorem non_200_response_counterexample:
  "exit_code (generate_eni_max_pods sample_parser (Response 404 sample_html)) = 0
   \<and> stdout (generate_eni_max_pods sample_parser (Response 404 sample_html))
       = replicate 51 ''t3.micro 5''
   \<and> stdout (generate_eni_max_pods sample_parser (Response 404 sample_html)) \<noteq> []"
  by (simp add: sample_run exit_code_def)

text \<open>
  C5. A row whose cell 1 or cell 2 does not convert to an integer is skipped silently:
  the body of the loop prints nothing for it, raises nothing, and the loop goes on with the
  rows after it, its output so far unchanged. The row with the cells \<open>bad\<close>, \<open>x\<close>, \<open>4\<close> is
  such a row.
\<close>

theorem unconvertible_cell_skips_row:
  assumes "cells = find_all ''td'' row"
    and "(1 < length cells \<and> py_int (strip (get_text (cells ! 1))) = None)
         \<or> (2 < length cells \<and> py_int (strip (get_text (cells ! 2))) = None)"
  shows "process_row row = Inr None
         \<and> rows_loop (row # rows) out = rows_loop rows out
         \<and> process_row (tr [''bad'', ''x'', ''4'']) = Inr None"
proof -
  have "process_row row = Inr None"
    using assms by (auto simp: process_row_def Let_def split: option.splits)
  moreover have "process_row (tr [''bad'', ''x'', ''4'']) = Inr None"
    by (simp add: eval_defs)
  ultimately show ?thesis by simp
qed

theorem unconvertible_cell_skips_row_witness:
  "py_int (strip (get_text (td ''x''))) = None
   \<and> process_row (tr [''bad'', ''x'', ''4'']) = Inr None
   \<and> rows_loop [tr [''bad'', ''x'', ''4''], tr [''t3.micro'', ''2'', ''4'']] []
       = \<lparr>stdout = [''t3.micro 5''], raised = None\<rparr>"
proof -
  let ?row = "tr [''bad'', ''x'', ''4'']"
  let ?cells = "[td ''bad'', td ''x'', td ''4'']"
  have c: "?cells = find_all ''td'' ?row" by (simp add: find_all_def tr_def td_def)
  have x: "py_int (strip (get_text (td ''x''))) = None" by (simp add: eval_defs)
  then have h: "(1 < length ?cells \<and> py_int (strip (get_text (?cells ! 1))) = None)
         \<or> (2 < length ?cells \<and> py_int (strip (get_text (?cells ! 2))) = None)" by simp
  have "process_row ?row = Inr None
      \<and> rows_loop (?row # [tr [''t3.micro'', ''2'', ''4'']]) []
          = rows_loop [tr [''t3.micro'', ''2'', ''4'']] []"
    using unconvertible_cell_skips_row [OF c h, of "[tr [''t3.micro'', ''2'', ''4'']]" "[]"]
    by blast
  then show ?thesis using x by (simp add: t3_micro_row)
qed

text \<open>
  C6. A row of one or two data cells is not skipped the way a row that fails to convert
  is: when the row has one cell, or two of which the second converts, reading the missing
  cell raises \<open>IndexError\<close>, which \<open>except ValueError\<close> does not catch. The run ends
  there with exit code 1, with the lines printed so far; the rows after it are never
  looked at. (A row of two cells whose second does not convert is skipped, by C5.)
\<close>

theorem short_row_raises_index_error:
  assumes "cells = find_all ''td'' row"
    and "length cells = 1 \<or> (length cells = 2 \<and> py_int (strip (get_text (cells ! 1))) \<noteq> None)"
  shows "process_row row = Inl IndexError
         \<and> rows_loop (row # rows) out = \<lparr>stdout = out, raised = Some IndexError\<rparr>
         \<and> exit_code (rows_loop (row # rows) out) = 1"
proof -
  have "process_row row = Inl IndexError"
    using assms by (auto simp: process_row_def Let_def split: option.splits)
  then show ?thesis by (simp add: exit_code_def)
qed

theorem short_row_raises_index_error_witness:
  "process_row (tr [''t3.micro'', ''2'']) = Inl IndexError
   \<and> rows_loop [tr [''t3.micro'', ''2''], tr [''t3.micro'', ''2'', ''4'']] []
       = \<lparr>stdout = [], raised = Some IndexError\<rparr>
   \<and> exit_code (rows_loop [tr [''t3.micro'', ''2''], tr [''t3.micro'', ''2'', ''4'']] []) = 1"
proof -
  let ?row = "tr [''t3.micro'', ''2'']"
  let ?cells = "[td ''t3.micro'', td ''2'']"
  have c: "?cells = find_all ''td'' ?row" by (simp add: find_all_def tr_def td_def)
  have "py_int (strip (get_text (td ''2''))) = Some 2" by (simp add: eval_defs)
  then have h: "length ?cells = 1
      \<or> (length ?cells = 2 \<and> py_int (strip (get_text (?cells ! 1))) \<noteq> None)" by simp
  show ?thesis
    using short_row_raises_index_error [OF c h, of "[tr [''t3.micro'', ''2'', ''4'']]" "[]"]
    by (simp add: exit_code_def)
qed

text \<open>
  C7. A row with no data cell, such as a header row made of header cells, is skipped: the
  body of the loop prints nothing for it and the loop goes on with the next row.
\<close>

theorem row_without_cells_skipped:
  "find_all ''td'' row = [] \<Longrightarrow>
     process_row row = Inr None \<and> rows_loop (row # rows) out = rows_loop rows out"
  by (simp add: process_row_no_cells)

theorem row_without_cells_skipped_witness:
  "find_all ''td'' header_row = []
   \<and> process_row header_row = Inr None
   \<and> rows_loop [header_row, tr [''t3.micro'', ''2'', ''4'']] []
       = \<lparr>stdout = [''t3.micro 5''], raised = None\<rparr>"
proof -
  have h: "find_all ''td'' header_row = []"
    by (simp add: find_all_def header_row_def th_def)
  show ?thesis
    using row_without_cells_skipped [OF h, of "[tr [''t3.micro'', ''2'', ''4'']]" "[]"] h
    by (simp add: t3_micro_row)
qed

text \<open>
  C8. When no table of the document is longer than 50, the length of a table being the
  number of its children (\<open>len(table)\<close>: child elements, texts and comments), the variable
  \<open>t\<close> is never bound and the run ends at once at line 17 with Python's uncaught
  \<open>NameError\<close> and a non-zero exit code; it never gets to the rows and prints no line.
\<close>

theorem no_long_table_name_error:
  "list_all (\<lambda>table. len table \<le> 50) (find_all ''table'' (BeautifulSoup text')) \<Longrightarrow>
     generate_eni_max_pods BeautifulSoup (Response status_code text')
       = \<lparr>stdout = [], raised = Some NameError\<rparr>
     \<and> exit_code (generate_eni_max_pods BeautifulSoup (Response status_code text')) \<noteq> 0"
proof -
  assume "list_all (\<lambda>table. len table \<le> 50) (find_all ''table'' (BeautifulSoup text'))"
  then have "filter (\<lambda>table. 50 < len table) (find_all ''table'' (BeautifulSoup text')) = []"
    by (auto simp: list_all_iff filter_empty_conv)
  then have "select_table None (find_all ''table'' (BeautifulSoup text')) = None"
    by (simp add: select_table_filter)
  then show ?thesis by (simp add: generate_eni_max_pods_def exit_code_def)
qed

theorem no_long_table_name_error_witness:
  "find_all ''table'' (small_parser small_html) = [small_table]
   \<and> len small_table = 3
   \<and> generate_eni_max_pods small_parser (Response 200 small_html)
       = \<lparr>stdout = [], raised = Some NameError\<rparr>
   \<and> exit_code (generate_eni_max_pods small_parser (Response 200 small_html)) = 1"
proof -
  have t: "find_all ''table'' (small_parser small_html) = [small_table]"
    by (simp add: small_parser_def small_page_def small_table_def header_row_def find_all_def
        tr_def td_def th_def)
  have l: "len small_table = 3" by (simp add: small_table_def)
  have h: "list_all (\<lambda>table. len table \<le> 50) (find_all ''table'' (small_parser small_html))"
    using t l by simp
  show ?thesis
    using no_long_table_name_error [of small_parser small_html 200] h t l
    by (simp add: exit_code_def)
qed

text \<open>
  With the count of elements as the threshold, C8 fails: the one table of \<open>comment_page\<close>
  has four elements below it, so no table has more than 50 elements; it has 51 children,
  so the loop selects it, and the run prints \<open>t3.micro 5\<close> and ends with exit code 0.
\<close>

theorem few_elements_long_table_counterexample:
  "descendant_elements comment_table = 4
   \<and> filter exceeds_by_descendants (find_all ''table'' (comment_parser comment_html)) = []
   \<and> stdout (generate_eni_max_pods comment_parser (Response 200 comment_html))
       = [''t3.micro 5'']
   \<and> exit_code (generate_eni_max_pods comment_parser (Response 200 comment_html)) = 0"
proof -
  have 1: "descendant_elements comment_table = 4"
    by code_simp
  have 2: "find_all ''table'' (comment_parser comment_html) = [comment_table]"
    by code_simp
  show ?thesis
    using 1 2 by (simp add: comment_run exit_code_def exceeds_by_descendants_def)
qed

text \<open>
  C9. The formula is applied without any check of its arguments: for a row that parses
  with 0 interfaces or 0 addresses per interface the capacity is \<open>3 - e - i\<close>, which can
  be negative (0 and 5 give -2), and the line is printed all the same, the loop going on
  with the next row.
\<close>

theorem no_bounds_check:
  assumes "parsed_row row = Some (instance_type, e, i)" and "e = 0 \<or> i = 0"
  shows "max_pods e i = 3 - e - i
         \<and> process_row row = Inr (Some (instance_type @ '' '' @ str_int (3 - e - i)))
         \<and> rows_loop (row # rows) out
             = rows_loop rows (out @ [instance_type @ '' '' @ str_int (3 - e - i)])
         \<and> max_pods 0 5 = - 2"
proof -
  have m: "max_pods e i = 3 - e - i" using assms(2) by (auto simp: max_pods_def)
  have "process_row row = Inr (Some (output_line (instance_type, e, i)))"
    using assms(1) by (rule process_row_parsed)
  then have "process_row row = Inr (Some (instance_type @ '' '' @ str_int (3 - e - i)))"
    using m by simp
  then show ?thesis using m by (simp add: max_pods_def)
qed

theorem no_bounds_check_witness:
  "parsed_row (tr [''x1.zero'', ''0'', ''5'']) = Some (''x1.zero'', 0, 5)
   \<and> max_pods 0 5 = - 2
   \<and> process_row (tr [''x1.zero'', ''0'', ''5'']) = Inr (Some ''x1.zero -2'')
   \<and> rows_loop [tr [''x1.zero'', ''0'', ''5'']] [] = \<lparr>stdout = [''x1.zero -2''], raised = None\<rparr>"
proof -
  have p: "parsed_row (tr [''x1.zero'', ''0'', ''5'']) = Some (''x1.zero'', 0, 5)"
    by (simp add: parsed_row_def eval_defs)
  have z: "(0::int) = 0 \<or> (5::int) = 0" by simp
  have s: "str_int (3 - 0 - 5) = ''-2''" by (simp add: eval_defs)
  show ?thesis
    using no_bounds_check [OF p z, of "[]" "[]"] p s by simp
qed

text \<open>
  C10. In a row of at least three cells where the texts of cells 1 and 2 are integers
  with whitespace around them, the integers are accepted, and the line printed starts with
  the instance type, which is the text of cell 0 without its leading and trailing
  whitespace: that text is whitespace, then the instance type, then whitespace, and the
  instance type neither begins nor ends with whitespace.
\<close>

theorem cells_are_stripped:
  assumes "cells = find_all ''td'' row" and "3 \<le> length cells"
    and "get_text (cells ! 1) = a1 @ s1 @ b1" and "list_all isspace a1" and "list_all isspace b1"
    and "py_int s1 = Some e"
    and "get_text (cells ! 2) = a2 @ s2 @ b2" and "list_all isspace a2" and "list_all isspace b2"
    and "py_int s2 = Some i"
    and "instance_type = strip (get_text (cells ! 0))"
  shows "process_row row = Inr (Some (instance_type @ '' '' @ str_int (max_pods e i)))
         \<and> (\<exists>a b. get_text (cells ! 0) = a @ instance_type @ b
                  \<and> list_all isspace a \<and> list_all isspace b)
         \<and> (instance_type = [] \<or>
              (\<not> isspace (hd instance_type) \<and> \<not> isspace (last instance_type)))"
proof -
  have 1: "py_int (strip (get_text (cells ! 1))) = Some e"
    using assms(3-6) by (simp add: py_int_surrounded)
  have 2: "py_int (strip (get_text (cells ! 2))) = Some i"
    using assms(7-10) by (simp add: py_int_surrounded)
  have row: "process_row row = Inr (Some (instance_type @ '' '' @ str_int (max_pods e i)))"
    using assms(1,2,11) 1 2 by (auto simp: process_row_def Let_def)
  have sur: "\<exists>a b. get_text (cells ! 0) = a @ instance_type @ b
                  \<and> list_all isspace a \<and> list_all isspace b"
    using trim_surrounded [of "get_text (cells ! 0)" isspace] assms(11) by (simp add: strip_def)
  have ends: "instance_type = [] \<or>
              (\<not> isspace (hd instance_type) \<and> \<not> isspace (last instance_type))"
    using trim_hd [of isspace "get_text (cells ! 0)"] trim_last [of isspace "get_text (cells ! 0)"]
      assms(11) by (auto simp: strip_def)
  show ?thesis using row sur ends by blast
qed

theorem cells_are_stripped_witness:
  "process_row (tr [''  t3.micro\<newline>'', '' 2 '', [CHR 0x09, CHR ''4'', CHR 0xA0]])
     = Inr (Some ''t3.micro 5'')"
proof -
  let ?row = "tr [''  t3.micro\<newline>'', '' 2 '', [CHR 0x09, CHR ''4'', CHR 0xA0]]"
  let ?cells = "[td ''  t3.micro\<newline>'', td '' 2 '', td [CHR 0x09, CHR ''4'', CHR 0xA0]]"
  have c: "?cells = find_all ''td'' ?row" by (simp add: find_all_def tr_def td_def)
  have n: "3 \<le> length ?cells" by simp
  have t1: "get_text (?cells ! 1) = '' '' @ ''2'' @ '' ''" by (simp add: get_text_def td_def)
  have t2: "get_text (?cells ! 2) = [CHR 0x09] @ ''4'' @ [CHR 0xA0]"
    by (simp add: get_text_def td_def)
  have w: "list_all isspace '' ''" "list_all isspace [CHR 0x09]" "list_all isspace [CHR 0xA0]"
    by (simp_all add: isspace_def)
  have i: "py_int ''2'' = Some 2" "py_int ''4'' = Some 4" by (simp_all add: eval_defs)
  have s: "''t3.micro'' = strip (get_text (?cells ! 0))" by (simp add: eval_defs)
  have m: "str_int (max_pods 2 4) = ''5''" by (simp add: eval_defs)
  show ?thesis
    using cells_are_stripped [OF c n t1 w(1) w(1) i(1) t2 w(2) w(3) i(2) s] m by simp
qed

end
